theory Spec2Isabelle
  imports Main
begin

section \<open>Documents, collections and the store\<close>

text \<open>
  The bot keeps three MongoDB collections (\<^verbatim>\<open>users_col\<close>, \<^verbatim>\<open>warnings_col\<close>,
  \<^verbatim>\<open>groups_col\<close>). A collection is modelled as the list of its documents in natural
  (insertion) order; the store-assigned \<^verbatim>\<open>_id\<close> field is left out, since the code never
  reads it. Python integers are \<open>int\<close>; \<^verbatim>\<open>None\<close> for an optional profile field
  is \<open>None\<close> (a chat profile returned by \<^verbatim>\<open>get_chat\<close> may lack a first name).
\<close>

record user_doc =
  user_id :: int
  username :: "string option"
  first_name :: "string option"
  last_name :: "string option"

record group_doc =
  chat_id :: int
  title :: "string option"

record warning_doc =
  w_user_id :: int
  w_chat_id :: int
  timestamp :: int
  reason :: string

record store =
  users_col :: "user_doc list"
  warnings_col :: "warning_doc list"
  groups_col :: "group_doc list"

text \<open>The Telegram objects the handlers read: a user, a chat.\<close>

record tg_user =
  tg_id :: int
  tg_username :: "string option"
  tg_first_name :: "string option"
  tg_last_name :: "string option"

record tg_chat =
  tg_chat_id :: int
  tg_title :: "string option"

subsection \<open>The store operations the code calls\<close>

text \<open>
  \<^verbatim>\<open>update_one(filter, {"$set": ...}, upsert=True)\<close>: the first document matching the
  filter is updated; when none matches, a new document is inserted.
\<close>

fun update_one_upsert :: "('a \<Rightarrow> bool) \<Rightarrow> ('a \<Rightarrow> 'a) \<Rightarrow> 'a \<Rightarrow> 'a list \<Rightarrow> 'a list" where
  "update_one_upsert flt upd new [] = [new]"
| "update_one_upsert flt upd new (d # ds) =
     (if flt d then upd d # ds else d # update_one_upsert flt upd new ds)"

text \<open>\<^verbatim>\<open>insert_one(doc)\<close> appends; \<^verbatim>\<open>delete_many(filter)\<close> removes every match.\<close>

definition insert_one :: "'a \<Rightarrow> 'a list \<Rightarrow> 'a list" where
  "insert_one d ds = ds @ [d]"

definition delete_many :: "('a \<Rightarrow> bool) \<Rightarrow> 'a list \<Rightarrow> 'a list" where
  "delete_many flt ds = filter (\<lambda>d. \<not> flt d) ds"

text \<open>
  \<^verbatim>\<open>find(filter).sort(key, -1)\<close>: the matching documents in descending order of the
  key. The store leaves the order among equal keys open; the model takes the stable
  order, and the theorems below rely only on the result being a descending rearrangement.
\<close>

definition sort_desc :: "('a \<Rightarrow> int) \<Rightarrow> 'a list \<Rightarrow> 'a list" where
  "sort_desc k ds = sort_key (\<lambda>d. - k d) ds"

subsection \<open>Database functions of \<^verbatim>\<open>main.py\<close>\<close>

definition add_user :: "tg_user \<Rightarrow> store \<Rightarrow> store" where
  "add_user user s = s\<lparr>users_col :=
     update_one_upsert (\<lambda>d. user_id d = tg_id user)
       (\<lambda>d. d\<lparr>user_id := tg_id user, username := tg_username user,
               first_name := tg_first_name user, last_name := tg_last_name user\<rparr>)
       \<lparr>user_id = tg_id user, username = tg_username user,
        first_name = tg_first_name user, last_name = tg_last_name user\<rparr>
       (users_col s)\<rparr>"

definition add_group :: "tg_chat \<Rightarrow> store \<Rightarrow> store" where
  "add_group chat s = s\<lparr>groups_col :=
     update_one_upsert (\<lambda>d. chat_id d = tg_chat_id chat)
       (\<lambda>d. d\<lparr>chat_id := tg_chat_id chat, title := tg_title chat\<rparr>)
       \<lparr>chat_id = tg_chat_id chat, title = tg_title chat\<rparr>
       (groups_col s)\<rparr>"

text \<open>
  \<^verbatim>\<open>add_warning\<close> reads the clock (\<^verbatim>\<open>int(time.time())\<close>); the reading is the
  argument \<open>t\<close>.
\<close>

definition add_warning :: "int \<Rightarrow> int \<Rightarrow> string \<Rightarrow> int \<Rightarrow> store \<Rightarrow> store" where
  "add_warning uid cid rsn t s = s\<lparr>warnings_col :=
     insert_one \<lparr>w_user_id = uid, w_chat_id = cid, timestamp = t, reason = rsn\<rparr>
       (warnings_col s)\<rparr>"

definition get_warnings :: "int \<Rightarrow> store \<Rightarrow> warning_doc list" where
  "get_warnings uid s =
     sort_desc timestamp (filter (\<lambda>w. w_user_id w = uid) (warnings_col s))"

definition get_group_title :: "int \<Rightarrow> store \<Rightarrow> string option" where
  "get_group_title cid s =
     (case List.find (\<lambda>g. chat_id g = cid) (groups_col s) of
        None \<Rightarrow> None
      | Some g \<Rightarrow> title g)"

definition clear_warnings :: "int \<Rightarrow> store \<Rightarrow> store" where
  "clear_warnings uid s =
     s\<lparr>warnings_col := delete_many (\<lambda>w. w_user_id w = uid) (warnings_col s)\<rparr>"

text \<open>
  \<^verbatim>\<open>warnings_col.distinct("user_id")\<close> is the list of the distinct values of the field;
  \<^verbatim>\<open>{"user_id": {"$nin": ids}}\<close> keeps the documents whose field is none of them.
\<close>

definition distinct_user_id :: "warning_doc list \<Rightarrow> int list" where
  "distinct_user_id ws = remdups (map w_user_id ws)"

definition get_users_with_no_warnings :: "store \<Rightarrow> user_doc list" where
  "get_users_with_no_warnings s =
     (let warned_user_ids = distinct_user_id (warnings_col s)
      in filter (\<lambda>d. user_id d \<notin> set warned_user_ids) (users_col s))"

text \<open>A run of \<^verbatim>\<open>add_warning\<close> calls, each with its user, chat, reason and clock reading.\<close>

fun add_warning_calls :: "(int \<times> int \<times> string \<times> int) list \<Rightarrow> store \<Rightarrow> store" where
  "add_warning_calls [] s = s"
| "add_warning_calls ((uid, cid, rsn, t) # cs) s =
     add_warning_calls cs (add_warning uid cid rsn t s)"

subsection \<open>Errors\<close>

text \<open>
  The exceptions that reach the code: \<^verbatim>\<open>ValueError\<close> from \<^verbatim>\<open>int()\<close>, an error of the
  store (\<^verbatim>\<open>PyMongoError\<close>, with \<^verbatim>\<open>OperationFailure\<close> and the BSON encoder's
  \<^verbatim>\<open>OverflowError\<close>), and an error of a Telegram call.
\<close>

datatype error = ValueError | PyMongoError | OperationFailure | OverflowError | TelegramError

subsection \<open>The aggregation of \<^verbatim>\<open>get_top_warned_users\<close>\<close>

text \<open>
  \<^verbatim>\<open>{"$group": {"_id": "$user_id", "count": {"$sum": 1}}}\<close> yields one entry per distinct
  \<^verbatim>\<open>user_id\<close> with the number of its documents; \<^verbatim>\<open>{"$sort": {"count": -1}}\<close> orders
  them by descending count; \<^verbatim>\<open>{"$limit": limit}\<close> keeps the first \<open>limit\<close>. The store
  rejects a limit that is not positive, and the driver one beyond 64 bits.
\<close>

definition group_count :: "warning_doc list \<Rightarrow> (int \<times> nat) list" where
  "group_count ws =
     map (\<lambda>u. (u, length (filter (\<lambda>w. w_user_id w = u) ws))) (remdups (map w_user_id ws))"

definition get_top_warned_users :: "int \<Rightarrow> store \<Rightarrow> error + (int \<times> nat) list" where
  "get_top_warned_users limit s =
     (if 2 ^ 63 \<le> limit then Inl OverflowError
      else if limit \<le> 0 then Inl OperationFailure
      else Inr (take (nat limit) (sort_desc (\<lambda>e. int (snd e)) (group_count (warnings_col s)))))"

section \<open>Python strings\<close>

text \<open>
  Command arguments are Python strings. A \<open>char\<close> stands for one code point in the range
  U+0000 to U+00FF, so \<open>CHR 0xB2\<close> is SUPERSCRIPT TWO. In that range the decimal digits
  are \<^verbatim>\<open>0\<close> to \<^verbatim>\<open>9\<close>; \<^verbatim>\<open>str.isdigit\<close> also accepts the superscript digits U+00B2,
  U+00B3 and U+00B9; the white space that \<^verbatim>\<open>int\<close> strips is U+0009 to U+000D, U+0020,
  U+0085 and U+00A0 (the separators U+001C to U+001F are white space for \<^verbatim>\<open>str.split\<close>,
  but \<^verbatim>\<open>int\<close> rejects them).
\<close>

definition py_isdecimal :: "char \<Rightarrow> bool" where
  "py_isdecimal c = (48 \<le> (of_char c :: nat) \<and> (of_char c :: nat) \<le> 57)"

definition py_isdigit :: "char \<Rightarrow> bool" where
  "py_isdigit c = (py_isdecimal c \<or> (of_char c :: nat) \<in> {178, 179, 185})"

definition int_isspace :: "char \<Rightarrow> bool" where
  "int_isspace c = (let n = (of_char c :: nat) in
     (9 \<le> n \<and> n \<le> 13) \<or> n = 32 \<or> n = 133 \<or> n = 160)"

definition isdigit :: "string \<Rightarrow> bool" where
  "isdigit str = (str \<noteq> [] \<and> list_all py_isdigit str)"

definition py_strip :: "string \<Rightarrow> string" where
  "py_strip str = rev (dropWhile int_isspace (rev (dropWhile int_isspace str)))"

definition decimal_value :: "string \<Rightarrow> int" where
  "decimal_value ds = foldl (\<lambda>a c. 10 * a + int (of_char c - 48)) 0 ds"

text \<open>
  The digits of an integer literal: decimal digits, with single underscores allowed
  between two digits. \<open>None\<close> when the text is not of that form.
\<close>

fun int_digits :: "string \<Rightarrow> string option" where
  "int_digits [] = None"
| "int_digits [c] = (if py_isdecimal c then Some [c] else None)"
| "int_digits (c # d # r) =
     (if \<not> py_isdecimal c then None
      else if d = CHR ''_'' then map_option ((#) c) (int_digits r)
      else map_option ((#) c) (int_digits (d # r)))"

text \<open>
  \<^verbatim>\<open>int(str)\<close>: white space is stripped, then an optional sign and the digits. A
  literal of more than 4300 digits is refused (\<^verbatim>\<open>sys.get_int_max_str_digits()\<close>, the
  default of CPython 3.11 and of the security releases before it).
\<close>

definition int_max_str_digits :: nat where
  "int_max_str_digits = 4300"

definition int_of_digits :: "bool \<Rightarrow> string option \<Rightarrow> error + int" where
  "int_of_digits negative digits =
     (case digits of
        None \<Rightarrow> Inl ValueError
      | Some ds \<Rightarrow>
          if int_max_str_digits < length ds then Inl ValueError
          else Inr (if negative then - decimal_value ds else decimal_value ds))"

definition py_int :: "string \<Rightarrow> error + int" where
  "py_int str =
     (case py_strip str of
        [] \<Rightarrow> Inl ValueError
      | c # r \<Rightarrow>
          if c = CHR ''-'' then int_of_digits True (int_digits r)
          else if c = CHR ''+'' then int_of_digits False (int_digits r)
          else int_of_digits False (int_digits (c # r)))"

text \<open>\<^verbatim>\<open>" ".join(tokens)\<close>\<close>

fun join_space :: "string list \<Rightarrow> string" where
  "join_space [] = []"
| "join_space [x] = x"
| "join_space (x # y # r) = x @ '' '' @ join_space (y # r)"

text \<open>\<^verbatim>\<open>html.escape(str)\<close>, with quotes escaped.\<close>

definition html_escape :: "string \<Rightarrow> string" where
  "html_escape str = concat (map (\<lambda>c.
     if c = CHR ''&'' then ''&amp;''
     else if c = CHR ''<'' then ''&lt;''
     else if c = CHR ''>'' then ''&gt;''
     else if c = CHR 0x22 then ''&quot;''
     else if c = CHR 0x27 then ''&#x27;''
     else [c]) str)"

section \<open>Command handlers\<close>

text \<open>
  What a handler reads of the update: the sender, the chat, and the author of the message
  replied to (\<open>None\<close> when the command is not a reply). The platform answers
  \<^verbatim>\<open>get_member(chat, user)\<close> with the member's status and \<^verbatim>\<open>get_chat(id)\<close> with a
  profile, or raises.
\<close>

record tg_update =
  effective_user :: tg_user
  effective_chat :: tg_chat
  reply_to_message :: "tg_user option"

record platform =
  get_member :: "int \<Rightarrow> int \<Rightarrow> error + string"
  get_chat :: "int \<Rightarrow> error + tg_user"

text \<open>
  \<^verbatim>\<open>get_user_mention\<close> renders a link from the id and the escaped first name; the model
  keeps the two parts.
\<close>

datatype mention = Mention int string

definition get_user_mention :: "tg_user \<Rightarrow> mention" where
  "get_user_mention user =
     (let safe_name = html_escape
            (case tg_first_name user of
               None \<Rightarrow> ''Utente''
             | Some n \<Rightarrow> if n = [] then ''Utente'' else n)
      in Mention (tg_id user) safe_name)"

text \<open>
  The replies, one constructor per message of the source:
  \<^item> \<open>OnlyAdmins\<close>: ``Solo gli amministratori possono usare questo comando.''
  \<^item> \<open>PointsTotal m n\<close>: ``+1 punto per m. Totale punti: n''
  \<^item> \<open>ReplyToGivePoint\<close>: ``Rispondi a un messaggio per assegnare un punto.''
  \<^item> \<open>UserNotFound\<close>: ``Utente non trovato o ID non valido.''
  \<^item> \<open>WarningsFor m entries\<close>: the list of points of \<open>m\<close>, each entry with its timestamp,
    the title of its group when known, and its escaped reason
  \<^item> \<open>NoPointsYet m\<close>: ``m non ha ancora punti.''
  \<^item> \<open>PointsCleared m\<close>: all points of \<open>m\<close> have been removed
  \<^item> \<open>ReplyToClear\<close>: reply to a message to clear that user's points
  \<^item> \<open>BotActive\<close>: the acknowledgement of \<^verbatim>\<open>/start\<close>
\<close>

datatype reply =
    OnlyAdmins
  | PointsTotal mention nat
  | ReplyToGivePoint
  | UserNotFound
  | WarningsFor mention "(int \<times> string option \<times> string) list"
  | NoPointsYet mention
  | PointsCleared mention
  | ReplyToClear
  | BotActive

definition is_admin :: "platform \<Rightarrow> tg_update \<Rightarrow> int option \<Rightarrow> bool" where
  "is_admin api upd uid =
     (let user = (case uid of
                    None \<Rightarrow> tg_id (effective_user upd)
                  | Some i \<Rightarrow> if i \<noteq> 0 then i else tg_id (effective_user upd))
      in case get_member api (tg_chat_id (effective_chat upd)) user of
           Inl e \<Rightarrow> False
         | Inr status \<Rightarrow> status \<in> set [''administrator'', ''creator''])"

definition start :: "tg_update \<Rightarrow> store \<Rightarrow> store \<times> reply" where
  "start upd s = (add_group (effective_chat upd) (add_user (effective_user upd) s), BotActive)"

definition default_reason :: string where
  "default_reason = ''Nessun motivo fornito.''"

text \<open>
  The argument block of \<^verbatim>\<open>warn\<close> (lines 116 to 127): \<open>amount\<close> and \<open>reason\<close> start at
  their defaults; an exception of \<^verbatim>\<open>int\<close> is swallowed and leaves both as they were.
\<close>

definition warn_args :: "string list \<Rightarrow> int \<times> string" where
  "warn_args args =
     (if args = [] then (1, default_reason)
      else if isdigit (hd args) then
        (case py_int (hd args) of
           Inl e \<Rightarrow> (1, default_reason)
         | Inr amount \<Rightarrow>
             (amount, if length args > 1 then join_space (tl args) else default_reason))
      else (1, join_space args))"

text \<open>
  \<^verbatim>\<open>for _ in range(amount): add_warning(...)\<close>; the \<open>i\<close>-th call reads the clock as
  \<open>clock i\<close>.
\<close>

fun repeat_add_warning :: "nat \<Rightarrow> int \<Rightarrow> int \<Rightarrow> string \<Rightarrow> (nat \<Rightarrow> int) \<Rightarrow> nat \<Rightarrow> store \<Rightarrow> store" where
  "repeat_add_warning 0 uid cid rsn clock i s = s"
| "repeat_add_warning (Suc n) uid cid rsn clock i s =
     repeat_add_warning n uid cid rsn clock (Suc i) (add_warning uid cid rsn (clock i) s)"

definition warn :: "platform \<Rightarrow> tg_update \<Rightarrow> string list \<Rightarrow> (nat \<Rightarrow> int) \<Rightarrow> store \<Rightarrow> store \<times> reply" where
  "warn api upd args clock s =
     (if \<not> is_admin api upd None then (s, OnlyAdmins)
      else case reply_to_message upd of
        None \<Rightarrow> (s, ReplyToGivePoint)
      | Some warned_user \<Rightarrow>
          (let (amount0, rsn) = warn_args args;
               amount = max 1 (min amount0 100);
               s1 = add_user warned_user s;
               s2 = repeat_add_warning (nat amount) (tg_id warned_user)
                      (tg_chat_id (effective_chat upd)) rsn clock 0 s1;
               warn_count = length (get_warnings (tg_id warned_user) s2)
           in (s2, PointsTotal (get_user_mention warned_user) warn_count)))"

definition warnings_command :: "platform \<Rightarrow> tg_update \<Rightarrow> string list \<Rightarrow> store \<Rightarrow> store \<times> reply" where
  "warnings_command api upd args s =
     (if \<not> is_admin api upd None then (s, OnlyAdmins)
      else
        (let target =
           (case reply_to_message upd of
              Some u \<Rightarrow> Inr (tg_id u, get_user_mention u)
            | None \<Rightarrow>
                if args \<noteq> [] then
                  (case py_int (hd args) of
                     Inl e \<Rightarrow> Inl e
                   | Inr user_id_to_check \<Rightarrow>
                       (case get_chat api user_id_to_check of
                          Inl e \<Rightarrow> Inl e
                        | Inr user_info \<Rightarrow> Inr (user_id_to_check, get_user_mention user_info)))
                else Inr (tg_id (effective_user upd), get_user_mention (effective_user upd)))
         in case target of
              Inl e \<Rightarrow> (s, UserNotFound)
            | Inr (user_id_to_check, user_to_mention) \<Rightarrow>
                (let warnings_data = get_warnings user_id_to_check s
                 in if warnings_data \<noteq> [] then
                      (s, WarningsFor user_to_mention
                            (map (\<lambda>entry. (timestamp entry, get_group_title (w_chat_id entry) s,
                                           html_escape (reason entry))) warnings_data))
                    else (s, NoPointsYet user_to_mention))))"

definition clear_warnings_command :: "platform \<Rightarrow> tg_update \<Rightarrow> store \<Rightarrow> store \<times> reply" where
  "clear_warnings_command api upd s =
     (if \<not> is_admin api upd None then (s, OnlyAdmins)
      else case reply_to_message upd of
        Some user \<Rightarrow> (clear_warnings (tg_id user) s, PointsCleared (get_user_mention user))
      | None \<Rightarrow> (s, ReplyToClear))"

subsection \<open>The argument rule of \<^verbatim>\<open>/punto\<close> in the specification's words\<close>

text \<open>
  ``Optional leading numeric argument = repeat count (clamped to [1,100]); remaining tokens
  = reason text (default if absent)'': a leading token made of decimal digits is the count,
  the tokens after it are the reason; without such a token the count is 1 and all tokens
  are the reason.
\<close>

definition spec_punto_args :: "string list \<Rightarrow> nat \<times> string" where
  "spec_punto_args args =
     (case args of
        [] \<Rightarrow> (1, default_reason)
      | a # rest \<Rightarrow>
          if a \<noteq> [] \<and> list_all py_isdecimal a
          then (nat (max 1 (min (decimal_value a) 100)),
                if rest = [] then default_reason else join_space rest)
          else (1, join_space args))"

section \<open>The inactivity sweep\<close>

text \<open>
  \<^verbatim>\<open>auto_ban_inactive_users\<close> talks to the bot API and queries the three collections
  directly. Each of these calls either returns or raises:
  \<^item> \<open>bot\<close> gives, for one cycle, the outcome of \<^verbatim>\<open>ban_chat_member(chat_id, user_id)\<close> and
    of \<^verbatim>\<open>unban_chat_member(chat_id, user_id)\<close> for each pair;
  \<^item> \<open>store_access\<close> gives, for one cycle, the outcome of \<^verbatim>\<open>users_col.find()\<close>, of
    \<^verbatim>\<open>warnings_col.find_one({"user_id": u, "timestamp": {"$gte": c}})\<close> and of
    \<^verbatim>\<open>groups_col.find()\<close>.
  What the task does that can be observed is a trace of events: the calls it issues, the
  lines it logs, and its sleeps.
\<close>

record bot =
  ban_chat_member :: "int \<Rightarrow> int \<Rightarrow> error + bool"
  unban_chat_member :: "int \<Rightarrow> int \<Rightarrow> error + bool"

record store_access =
  users_find :: "error + user_doc list"
  warnings_find_one :: "int \<Rightarrow> int \<Rightarrow> error + warning_doc option"
  groups_find :: "error + group_doc list"

datatype event =
    Ban int int
  | Unban int int
  | LogInfo int int
  | LogWarning int int error
  | Sleep nat

text \<open>The queries of a store that answers, over the contents \<open>s\<close>.\<close>

definition connected :: "store \<Rightarrow> store_access" where
  "connected s =
     \<lparr>users_find = Inr (users_col s),
      warnings_find_one = (\<lambda>uid cutoff.
         Inr (List.find (\<lambda>w. w_user_id w = uid \<and> cutoff \<le> timestamp w) (warnings_col s))),
      groups_find = Inr (groups_col s)\<rparr>"

text \<open>Lines 245 to 250: the removal from one group, inside \<^verbatim>\<open>try\<close>.\<close>

definition remove_from_group :: "bot \<Rightarrow> int \<Rightarrow> int \<Rightarrow> event list" where
  "remove_from_group b cid uid =
     (case ban_chat_member b cid uid of
        Inl e \<Rightarrow> [Ban cid uid, LogWarning uid cid e]
      | Inr _ \<Rightarrow>
          (case unban_chat_member b cid uid of
             Inl e \<Rightarrow> [Ban cid uid, Unban cid uid, LogWarning uid cid e]
           | Inr _ \<Rightarrow> [Ban cid uid, Unban cid uid, LogInfo uid cid]))"

text \<open>Lines 243 to 250: the loop over the groups.\<close>

fun remove_from_groups :: "bot \<Rightarrow> int \<Rightarrow> group_doc list \<Rightarrow> event list" where
  "remove_from_groups b uid [] = []"
| "remove_from_groups b uid (g # gs) =
     remove_from_group b (chat_id g) uid @ remove_from_groups b uid gs"

text \<open>
  Lines 234 to 250: the loop over the users. The result is the trace and, when a query
  raised, the exception that leaves the loop.
\<close>

fun sweep_users :: "store_access \<Rightarrow> bot \<Rightarrow> int \<Rightarrow> user_doc list \<Rightarrow> event list \<times> error option" where
  "sweep_users db b one_day_ago [] = ([], None)"
| "sweep_users db b one_day_ago (user # rest) =
     (case warnings_find_one db (user_id user) one_day_ago of
        Inl e \<Rightarrow> ([], Some e)
      | Inr (Some recent_warning) \<Rightarrow> sweep_users db b one_day_ago rest
      | Inr None \<Rightarrow>
          (case groups_find db of
             Inl e \<Rightarrow> ([], Some e)
           | Inr gs \<Rightarrow>
               (let tr = remove_from_groups b (user_id user) gs;
                    (tr', r) = sweep_users db b one_day_ago rest
                in (tr @ tr', r))))"

text \<open>Lines 230 to 250: one pass of the body of \<^verbatim>\<open>while True\<close>, up to the sleep.\<close>

definition sweep_cycle :: "store_access \<Rightarrow> bot \<Rightarrow> int \<Rightarrow> event list \<times> error option" where
  "sweep_cycle db b now =
     (let one_day_ago = now - 24 * 60 * 60
      in case users_find db of
           Inl e \<Rightarrow> ([], Some e)
         | Inr all_users \<Rightarrow> sweep_users db b one_day_ago all_users)"



subsection \<open>Reading a trace, and the cycles in which a query raises\<close>

fun is_ban :: "event \<Rightarrow> bool" where
  "is_ban (Ban cid uid) = True"
| "is_ban ev = False"




section \<open>Example inputs\<close>

text \<open>Six warnings over three users and three chats.\<close>

definition top_example :: store where
  "top_example = \<lparr>users_col = [],
     warnings_col =
       [\<lparr>w_user_id = 7, w_chat_id = 1, timestamp = 10, reason = ''a''\<rparr>,
        \<lparr>w_user_id = 5, w_chat_id = 1, timestamp = 11, reason = ''b''\<rparr>,
        \<lparr>w_user_id = 9, w_chat_id = 2, timestamp = 12, reason = ''c''\<rparr>,
        \<lparr>w_user_id = 7, w_chat_id = 2, timestamp = 13, reason = ''d''\<rparr>,
        \<lparr>w_user_id = 9, w_chat_id = 1, timestamp = 14, reason = ''e''\<rparr>,
        \<lparr>w_user_id = 9, w_chat_id = 3, timestamp = 15, reason = ''f''\<rparr>],
     groups_col = []\<rparr>"

text \<open>
  One tracked user without warnings and two tracked groups; a bot API whose ban call
  fails in group 10; a store that cannot be reached; and a run of cycles in which the store
  is unreachable during cycle \<open>m\<close> only.
\<close>

definition sweep_example :: store where
  "sweep_example =
     \<lparr>users_col = [\<lparr>user_id = 1, username = None, first_name = Some ''U'', last_name = None\<rparr>],
      warnings_col = [],
      groups_col = [\<lparr>chat_id = 10, title = Some ''G1''\<rparr>, \<lparr>chat_id = 20, title = Some ''G2''\<rparr>]\<rparr>"

definition ban_fails_in_10 :: bot where
  "ban_fails_in_10 =
     \<lparr>ban_chat_member = (\<lambda>cid uid. if cid = 10 then Inl TelegramError else Inr True),
      unban_chat_member = (\<lambda>cid uid. Inr True)\<rparr>"



text \<open>
  A platform on which user 1 is an administrator, user 2 a plain member and every other
  lookup fails; a command sent by user \<open>i\<close> in chat 10 as a reply to user 2; a store with
  two warnings of user 2, who is not tracked yet.
\<close>

definition example_api :: platform where
  "example_api =
     \<lparr>get_member = (\<lambda>chat user.
        if user = 1 then Inr ''administrator''
        else if user = 2 then Inr ''member''
        else Inl TelegramError),
      get_chat = (\<lambda>i. Inl TelegramError)\<rparr>"

definition person :: "int \<Rightarrow> tg_user" where
  "person i = \<lparr>tg_id = i, tg_username = None, tg_first_name = Some ''P'', tg_last_name = None\<rparr>"

definition command_by :: "int \<Rightarrow> tg_update" where
  "command_by i =
     \<lparr>effective_user = person i,
      effective_chat = \<lparr>tg_chat_id = 10, tg_title = Some ''G1''\<rparr>,
      reply_to_message = Some (person 2)\<rparr>"

definition warned_store :: store where
  "warned_store =
     \<lparr>users_col = [],
      warnings_col =
        [\<lparr>w_user_id = 2, w_chat_id = 20, timestamp = 100, reason = ''x''\<rparr>,
         \<lparr>w_user_id = 2, w_chat_id = 10, timestamp = 200, reason = ''y''\<rparr>],
      groups_col = []\<rparr>"

section \<open>Properties of the persistence functions\<close>

lemma sort_desc_sorted:
  "sorted_wrt (\<lambda>a b. k b \<le> k a) (sort_desc k ds)"
proof -
  have "sorted (map (\<lambda>d. - k d) (sort_key (\<lambda>d. - k d) ds))"
    by (rule sorted_sort_key)
  then show ?thesis
    by (simp add: sort_desc_def sorted_map)
qed

lemma length_sort_desc: "length (sort_desc k ds) = length ds"
  by (simp add: sort_desc_def)

lemma set_sort_desc: "set (sort_desc k ds) = set ds"
  by (simp add: sort_desc_def)

lemma warnings_col_add_warning_calls:
  "warnings_col (add_warning_calls cs s) =
     warnings_col s @
     map (\<lambda>(uid, cid, rsn, t). \<lparr>w_user_id = uid, w_chat_id = cid, timestamp = t, reason = rsn\<rparr>) cs"
  by (induction cs s rule: add_warning_calls.induct)
     (simp_all add: add_warning_def insert_one_def)

lemma filter_recorded_calls:
  "filter ((\<lambda>w. w_user_id w = u) \<circ>
     (\<lambda>(uid, cid, rsn, t). \<lparr>w_user_id = uid, w_chat_id = cid, timestamp = t, reason = rsn\<rparr>)) cs
   = filter (\<lambda>c. fst c = u) cs"
proof -
  have "(\<lambda>w. w_user_id w = u) \<circ>
     (\<lambda>(uid, cid, rsn, t). \<lparr>w_user_id = uid, w_chat_id = cid, timestamp = t, reason = rsn\<rparr>)
     = (\<lambda>c. fst c = u)"
    by (auto simp: fun_eq_iff)
  then show ?thesis by simp
qed

text \<open>
  C6. After any run of \<^verbatim>\<open>add_warning\<close> calls (for any users, chats, reasons and
  clock readings), \<^verbatim>\<open>get_warnings(u)\<close> has one entry for each call made for \<open>u\<close> on top
  of those \<open>u\<close> had before, so on a collection that started empty its length is the number
  of calls for \<open>u\<close>; and the list is in non-increasing order of timestamp.
\<close>

theorem get_warnings_counts_inserts_sorted:
  "length (get_warnings u (add_warning_calls cs s)) =
     length (get_warnings u s) + length (filter (\<lambda>c. fst c = u) cs)
   \<and> length (get_warnings u (add_warning_calls cs (s\<lparr>warnings_col := []\<rparr>))) =
     length (filter (\<lambda>c. fst c = u) cs)
   \<and> sorted_wrt (\<lambda>a b. timestamp b \<le> timestamp a) (get_warnings u (add_warning_calls cs s))"
  by (simp add: get_warnings_def length_sort_desc sort_desc_sorted
      warnings_col_add_warning_calls filter_recorded_calls)

text \<open>
  C7. \<^verbatim>\<open>clear_warnings(u)\<close> followed by \<^verbatim>\<open>get_warnings(u)\<close> gives the empty list, and
  clearing twice leaves the same store as clearing once.
\<close>

theorem clear_warnings_empties_idempotent:
  "get_warnings u (clear_warnings u s) = []
   \<and> clear_warnings u (clear_warnings u s) = clear_warnings u s"
  by (simp add: get_warnings_def clear_warnings_def delete_many_def sort_desc_def)

text \<open>
  C9. No user returned by \<^verbatim>\<open>get_users_with_no_warnings\<close> has a warning document, and
  the returned users are the tracked users minus those whose id appears in a warning.
\<close>

theorem no_warnings_disjoint_difference:
  "user_id ` set (get_users_with_no_warnings s) \<inter> w_user_id ` set (warnings_col s) = {}
   \<and> set (get_users_with_no_warnings s) =
       set (users_col s) - {d. user_id d \<in> w_user_id ` set (warnings_col s)}
   \<and> get_users_with_no_warnings s =
       filter (\<lambda>d. \<not> (\<exists>w \<in> set (warnings_col s). w_user_id w = user_id d)) (users_col s)"
proof -
  have eq: "get_users_with_no_warnings s =
      filter (\<lambda>d. user_id d \<notin> w_user_id ` set (warnings_col s)) (users_col s)"
    by (simp add: get_users_with_no_warnings_def distinct_user_id_def)
  have disj: "user_id ` set (get_users_with_no_warnings s) \<inter> w_user_id ` set (warnings_col s) = {}"
    unfolding eq by auto
  have diff: "set (get_users_with_no_warnings s) =
       set (users_col s) - {d. user_id d \<in> w_user_id ` set (warnings_col s)}"
    unfolding eq by auto
  have flt: "get_users_with_no_warnings s =
       filter (\<lambda>d. \<not> (\<exists>w \<in> set (warnings_col s). w_user_id w = user_id d)) (users_col s)"
    unfolding eq by (rule filter_cong) (auto simp: image_iff)
  from disj diff flt show ?thesis by blast
qed

subsection \<open>The ranking\<close>

lemma set_group_count:
  "set (group_count ws) =
     (\<lambda>u. (u, length (filter (\<lambda>w. w_user_id w = u) ws))) ` w_user_id ` set ws"
  by (simp add: group_count_def)

lemma distinct_group_count: "distinct (map fst (group_count ws))"
  by (simp add: group_count_def comp_def)

lemma sorted_top: "sorted_wrt (\<lambda>a b. snd b \<le> snd a) (sort_desc (\<lambda>e. int (snd e)) xs)"
  using sort_desc_sorted [of "\<lambda>e. int (snd e)" xs] by simp

lemma distinct_fst_sort_desc:
  "distinct (map fst xs) \<Longrightarrow> distinct (map fst (sort_desc k xs))"
  by (simp add: sort_desc_def distinct_map)

lemma take_below_rest:
  assumes "sorted_wrt P xs" "a \<in> set (take k xs)" "b \<in> set xs" "b \<notin> set (take k xs)"
  shows "P a b"
proof -
  from assms(3,4) have "b \<in> set (drop k xs)"
    by (metis Un_iff append_take_drop_id set_append)
  moreover have "sorted_wrt P (take k xs @ drop k xs)" using assms(1) by simp
  ultimately show ?thesis using assms(2) unfolding sorted_wrt_append by blast
qed


text \<open>
  C8. \<^verbatim>\<open>get_top_warned_users(n)\<close> returns for every positive \<open>n\<close> (that fits 64 bits; the
  store refuses any other limit, and nothing is returned). What it returns has at most \<open>n\<close>
  entries, each a user id paired with the number of that user's warning documents over
  all chats, no user twice, in non-increasing order of count; a warned user left out has
  no more warnings than any user returned.
\<close>

theorem top_warned_bounded_counted_sorted:
  "((\<exists>r. get_top_warned_users n s = Inr r) \<longleftrightarrow> (0 < n \<and> n < 2 ^ 63))
   \<and> (\<forall>r. get_top_warned_users n s = Inr r \<longrightarrow>
         int (length r) \<le> n
       \<and> (\<forall>e \<in> set r. snd e = length (filter (\<lambda>w. w_user_id w = fst e) (warnings_col s))
                      \<and> 0 < snd e)
       \<and> distinct (map fst r)
       \<and> sorted_wrt (\<lambda>a b. snd b \<le> snd a) r
       \<and> (\<forall>u \<in> w_user_id ` set (warnings_col s). u \<notin> fst ` set r \<longrightarrow>
            (\<forall>e \<in> set r. length (filter (\<lambda>w. w_user_id w = u) (warnings_col s)) \<le> snd e)))"
proof (intro conjI allI impI)
  show "(\<exists>r. get_top_warned_users n s = Inr r) \<longleftrightarrow> (0 < n \<and> n < 2 ^ 63)"
    by (auto simp: get_top_warned_users_def)
next
  fix r assume ret: "get_top_warned_users n s = Inr r"
  define xs where "xs = sort_desc (\<lambda>e. int (snd e)) (group_count (warnings_col s))"
  from ret have pos: "0 < n" and r: "r = take (nat n) xs"
    by (auto simp: get_top_warned_users_def xs_def split: if_splits)
  have set_xs: "set xs = (\<lambda>u. (u, length (filter (\<lambda>w. w_user_id w = u) (warnings_col s))))
                    ` w_user_id ` set (warnings_col s)"
    by (simp add: xs_def set_sort_desc set_group_count)
  have sorted_xs: "sorted_wrt (\<lambda>a b. snd b \<le> snd a) xs"
    unfolding xs_def by (rule sorted_top)
  show "int (length r) \<le> n" using pos r by simp
  show "\<forall>e \<in> set r. snd e = length (filter (\<lambda>w. w_user_id w = fst e) (warnings_col s)) \<and> 0 < snd e"
  proof
    fix e assume "e \<in> set r"
    then have "e \<in> set xs" unfolding r by (rule in_set_takeD)
    then obtain w where w: "w \<in> set (warnings_col s)"
      and e: "e = (w_user_id w, length (filter (\<lambda>v. w_user_id v = w_user_id w) (warnings_col s)))"
      unfolding set_xs by auto
    from w have "filter (\<lambda>v. w_user_id v = w_user_id w) (warnings_col s) \<noteq> []"
      by (auto simp: filter_empty_conv)
    with e show "snd e = length (filter (\<lambda>w. w_user_id w = fst e) (warnings_col s)) \<and> 0 < snd e"
      by simp
  qed
  have "distinct (map fst xs)"
    unfolding xs_def by (intro distinct_fst_sort_desc distinct_group_count)
  then show "distinct (map fst r)"
    unfolding r by (simp add: take_map [symmetric] del: take_map)
  show "sorted_wrt (\<lambda>a b. snd b \<le> snd a) r"
    unfolding r using sorted_xs by (rule sorted_wrt_take)
  show "\<forall>u \<in> w_user_id ` set (warnings_col s). u \<notin> fst ` set r \<longrightarrow>
            (\<forall>e \<in> set r. length (filter (\<lambda>w. w_user_id w = u) (warnings_col s)) \<le> snd e)"
  proof (intro ballI impI)
    fix u e
    assume u: "u \<in> w_user_id ` set (warnings_col s)" and out: "u \<notin> fst ` set r"
      and e: "e \<in> set r"
    let ?b = "(u, length (filter (\<lambda>w. w_user_id w = u) (warnings_col s)))"
    from u have "?b \<in> set xs" unfolding set_xs by blast
    moreover from out have "?b \<notin> set (take (nat n) xs)"
      unfolding r by force
    ultimately have "snd ?b \<le> snd e"
      using take_below_rest [OF sorted_xs, of e "nat n" ?b] e unfolding r by blast
    then show "length (filter (\<lambda>w. w_user_id w = u) (warnings_col s)) \<le> snd e" by simp
  qed
qed

theorem top_warned_bounded_counted_sorted_witness:
  "get_top_warned_users 2 top_example = Inr [(9, 3), (7, 2)]
   \<and> int (length [(9 :: int, 3 :: nat), (7, 2)]) \<le> 2
   \<and> sorted_wrt (\<lambda>a b. snd b \<le> snd a) [(9 :: int, 3 :: nat), (7, 2)]"
proof -
  have ev: "get_top_warned_users 2 top_example = Inr [(9, 3), (7, 2)]"
    by (simp add: get_top_warned_users_def top_example_def group_count_def sort_desc_def)
  from top_warned_bounded_counted_sorted [of 2 top_example] ev
  have "int (length [(9 :: int, 3 :: nat), (7, 2)]) \<le> 2
        \<and> sorted_wrt (\<lambda>a b. snd b \<le> snd a) [(9 :: int, 3 :: nat), (7, 2)]"
    by blast
  with ev show ?thesis by blast
qed

section \<open>Properties of the sweep\<close>

subsection \<open>Tracked ids stay unique\<close>

text \<open>
  The users and groups collections are only written by the upserts of \<^verbatim>\<open>add_user\<close> and
  \<^verbatim>\<open>add_group\<close>, which keep \<^verbatim>\<open>user_id\<close> and \<^verbatim>\<open>chat_id\<close> unique.
\<close>

lemma update_one_upsert_keys:
  assumes "\<forall>d. flt d = (k d = key)" and "\<forall>d. k (upd d) = key" and "k new = key"
  shows "map k (update_one_upsert flt upd new ds) =
           (if key \<in> set (map k ds) then map k ds else map k ds @ [key])"
  using assms by (induction ds) auto

lemma add_user_keeps_ids_distinct:
  assumes "distinct (map user_id (users_col s))"
  shows "distinct (map user_id (users_col (add_user user s)))"
proof -
  have "map user_id (users_col (add_user user s)) =
      (if tg_id user \<in> set (map user_id (users_col s)) then map user_id (users_col s)
       else map user_id (users_col s) @ [tg_id user])"
    by (simp add: add_user_def update_one_upsert_keys [where k = user_id and key = "tg_id user"])
  with assms show ?thesis by auto
qed

lemma add_group_keeps_ids_distinct:
  assumes "distinct (map chat_id (groups_col s))"
  shows "distinct (map chat_id (groups_col (add_group chat s)))"
proof -
  have "map chat_id (groups_col (add_group chat s)) =
      (if tg_chat_id chat \<in> set (map chat_id (groups_col s)) then map chat_id (groups_col s)
       else map chat_id (groups_col s) @ [tg_chat_id chat])"
    by (simp add: add_group_def update_one_upsert_keys [where k = chat_id and key = "tg_chat_id chat"])
  with assms show ?thesis by auto
qed

subsection \<open>One cycle over a store that answers\<close>

lemma find_recent_None:
  "(List.find (\<lambda>w. w_user_id w = uid \<and> c \<le> timestamp w) ws = None)
     = (\<not> (\<exists>w \<in> set ws. w_user_id w = uid \<and> c \<le> timestamp w))"
  by (auto simp: find_None_iff)

lemma sweep_users_connected:
  "sweep_users (connected s) b c us =
     (concat (map (\<lambda>u. remove_from_groups b (user_id u) (groups_col s))
        (filter (\<lambda>u. \<not> (\<exists>w \<in> set (warnings_col s). w_user_id w = user_id u \<and> c \<le> timestamp w)) us)),
      None)"
proof (induction us)
  case Nil
  then show ?case by simp
next
  case (Cons u us)
  show ?case
  proof (cases "List.find (\<lambda>w. w_user_id w = user_id u \<and> c \<le> timestamp w) (warnings_col s)")
    case None
    then have "\<not> (\<exists>w \<in> set (warnings_col s). w_user_id w = user_id u \<and> c \<le> timestamp w)"
      by (simp add: find_None_iff)
    with None Cons show ?thesis by (auto simp: connected_def)
  next
    case (Some w)
    then have "\<exists>w \<in> set (warnings_col s). w_user_id w = user_id u \<and> c \<le> timestamp w"
      by (metis find_recent_None option.distinct(1))
    with Some Cons show ?thesis by (auto simp: connected_def)
  qed
qed

lemma sweep_cycle_connected:
  "sweep_cycle (connected s) b now =
     (concat (map (\<lambda>u. remove_from_groups b (user_id u) (groups_col s))
        (filter (\<lambda>u. \<not> (\<exists>w \<in> set (warnings_col s).
                      w_user_id w = user_id u \<and> now - 86400 \<le> timestamp w)) (users_col s))),
      None)"
proof -
  have "sweep_cycle (connected s) b now = sweep_users (connected s) b (now - 86400) (users_col s)"
    by (simp add: sweep_cycle_def connected_def)
  then show ?thesis by (simp only: sweep_users_connected)
qed

lemma bans_of_remove_from_group:
  "filter is_ban (remove_from_group b cid uid) = [Ban cid uid]"
  by (simp add: remove_from_group_def split: sum.splits)

lemma bans_of_remove_from_groups:
  "filter is_ban (remove_from_groups b uid gs) = map (\<lambda>g. Ban (chat_id g) uid) gs"
  by (induction gs) (simp_all add: bans_of_remove_from_group)

lemma set_remove_from_groups:
  "set (remove_from_groups b uid gs) = (\<Union>g \<in> set gs. set (remove_from_group b (chat_id g) uid))"
  by (induction gs) simp_all

lemma set_remove_from_group:
  "Ban cid uid \<in> set (remove_from_group b cid uid)
   \<and> (\<forall>e. ban_chat_member b cid uid = Inl e \<longrightarrow>
         LogWarning uid cid e \<in> set (remove_from_group b cid uid))
   \<and> (\<forall>ok e. ban_chat_member b cid uid = Inr ok \<and> unban_chat_member b cid uid = Inl e \<longrightarrow>
         LogWarning uid cid e \<in> set (remove_from_group b cid uid))"
  by (auto simp: remove_from_group_def split: sum.splits)

lemma sweep_example_trace:
  "sweep_cycle (connected sweep_example) ban_fails_in_10 100000 =
     ([Ban 10 1, LogWarning 1 10 TelegramError, Ban 20 1, Unban 20 1, LogInfo 1 20], None)"
  by (simp add: sweep_cycle_def connected_def sweep_example_def ban_fails_in_10_def
      remove_from_group_def)

lemma concat_map_only:
  assumes "distinct (map k xs)" "x \<in> set xs" "\<forall>y \<in> set xs. k y \<noteq> k x \<longrightarrow> f y = []"
  shows "concat (map f xs) = f x"
  using assms
proof (induction xs)
  case Nil
  then show ?case by simp
next
  case (Cons a xs)
  show ?case
  proof (cases "a = x")
    case True
    with Cons.prems have "\<forall>y \<in> set xs. k y \<noteq> k x" by (auto simp: image_iff)
    with Cons.prems have "\<forall>y \<in> set xs. f y = []" by auto
    then have "concat (map f xs) = []" by simp
    with True show ?thesis by simp
  next
    case False
    with Cons.prems have x: "x \<in> set xs" by simp
    with Cons.prems have "k a \<noteq> k x" by (auto simp: image_iff)
    with Cons.prems have "f a = []" by simp
    moreover have "concat (map f xs) = f x"
      using Cons.IH Cons.prems x by simp
    ultimately show ?thesis by simp
  qed
qed

lemma remove_from_groups_concat:
  "remove_from_groups b uid gs = concat (map (\<lambda>g. remove_from_group b (chat_id g) uid) gs)"
  by (induction gs) simp_all

lemma pair_calls_group:
  "filter (\<lambda>e. e = Ban cg uu \<or> e = Unban cg uu) (remove_from_group b c' u') =
     (if c' = cg \<and> u' = uu then
        (case ban_chat_member b cg uu of
           Inl e \<Rightarrow> [Ban cg uu]
         | Inr ok \<Rightarrow> [Ban cg uu, Unban cg uu])
      else [])"
  by (auto simp: remove_from_group_def split: sum.splits)

lemma pair_calls_other_user:
  "u' \<noteq> uu \<Longrightarrow> filter (\<lambda>e. e = Ban cg uu \<or> e = Unban cg uu) (remove_from_groups b u' gs) = []"
  by (induction gs) (simp_all add: pair_calls_group)

lemma events_of_other_user:
  "u' \<noteq> uu \<Longrightarrow> Ban cid uu \<notin> set (remove_from_groups b u' gs)
     \<and> Unban cid uu \<notin> set (remove_from_groups b u' gs)"
  by (induction gs) (auto simp: remove_from_group_def split: sum.splits)

lemma pair_calls_groups:
  assumes "distinct (map chat_id gs)" "g \<in> set gs"
  shows "filter (\<lambda>e. e = Ban (chat_id g) uu \<or> e = Unban (chat_id g) uu) (remove_from_groups b uu gs) =
     (case ban_chat_member b (chat_id g) uu of
        Inl e \<Rightarrow> [Ban (chat_id g) uu]
      | Inr ok \<Rightarrow> [Ban (chat_id g) uu, Unban (chat_id g) uu])"
proof -
  let ?P = "\<lambda>e. e = Ban (chat_id g) uu \<or> e = Unban (chat_id g) uu"
  let ?f = "\<lambda>g'. filter ?P (remove_from_group b (chat_id g') uu)"
  have "filter ?P (remove_from_groups b uu gs) = concat (map ?f gs)"
    by (simp add: remove_from_groups_concat filter_concat comp_def)
  also have "\<dots> = ?f g"
  proof (rule concat_map_only [where k = chat_id])
    show "distinct (map chat_id gs)" by (rule assms(1))
    show "g \<in> set gs" by (rule assms(2))
    show "\<forall>y \<in> set gs. chat_id y \<noteq> chat_id g \<longrightarrow> ?f y = []"
      by (simp add: pair_calls_group)
  qed
  also have "\<dots> = (case ban_chat_member b (chat_id g) uu of
        Inl e \<Rightarrow> [Ban (chat_id g) uu]
      | Inr ok \<Rightarrow> [Ban (chat_id g) uu, Unban (chat_id g) uu])"
    by (simp add: pair_calls_group)
  finally show ?thesis .
qed

text \<open>
  C1 (as amended). In one cycle over a store that answers, with \<^verbatim>\<open>user_id\<close> unique among
  the tracked users and \<^verbatim>\<open>chat_id\<close> among the tracked groups, for every tracked user \<open>u\<close>
  and tracked group \<open>g\<close>: exactly one ban call is issued against \<open>g\<close> for \<open>u\<close> if and only
  if no warning document of \<open>u\<close>, from whatever chat, has a timestamp of at least
  \<open>now - 86400\<close>; that ban is followed by exactly one unban call when the ban call
  returns, and by none when it raises. A user with a warning in the window receives no
  ban and no unban call at all.
\<close>

theorem sweep_removes_exactly_the_inactive:
  assumes "distinct (map user_id (users_col s))" and "distinct (map chat_id (groups_col s))"
    and "u \<in> set (users_col s)" and "g \<in> set (groups_col s)"
  shows "filter (\<lambda>e. e = Ban (chat_id g) (user_id u) \<or> e = Unban (chat_id g) (user_id u))
           (fst (sweep_cycle (connected s) b now)) =
         (if \<exists>w \<in> set (warnings_col s). w_user_id w = user_id u \<and> now - 86400 \<le> timestamp w
          then []
          else case ban_chat_member b (chat_id g) (user_id u) of
                 Inl e \<Rightarrow> [Ban (chat_id g) (user_id u)]
               | Inr ok \<Rightarrow> [Ban (chat_id g) (user_id u), Unban (chat_id g) (user_id u)])
       \<and> ((\<exists>w \<in> set (warnings_col s). w_user_id w = user_id u \<and> now - 86400 \<le> timestamp w) \<longrightarrow>
            (\<forall>cid. Ban cid (user_id u) \<notin> set (fst (sweep_cycle (connected s) b now))
                 \<and> Unban cid (user_id u) \<notin> set (fst (sweep_cycle (connected s) b now))))"
proof (intro conjI impI)
  let ?old = "\<lambda>v. \<not> (\<exists>w \<in> set (warnings_col s). w_user_id w = user_id v \<and> now - 86400 \<le> timestamp w)"
  let ?P = "\<lambda>e. e = Ban (chat_id g) (user_id u) \<or> e = Unban (chat_id g) (user_id u)"
  let ?f = "\<lambda>v. filter ?P (remove_from_groups b (user_id v) (groups_col s))"
  let ?us = "filter ?old (users_col s)"
  have tr: "filter ?P (fst (sweep_cycle (connected s) b now)) = concat (map ?f ?us)"
    by (simp add: sweep_cycle_connected filter_concat comp_def)
  show "filter ?P (fst (sweep_cycle (connected s) b now)) =
         (if \<exists>w \<in> set (warnings_col s). w_user_id w = user_id u \<and> now - 86400 \<le> timestamp w
          then []
          else case ban_chat_member b (chat_id g) (user_id u) of
                 Inl e \<Rightarrow> [Ban (chat_id g) (user_id u)]
               | Inr ok \<Rightarrow> [Ban (chat_id g) (user_id u), Unban (chat_id g) (user_id u)])"
  proof (cases "?old u")
    case True
    have "concat (map ?f ?us) = ?f u"
    proof (rule concat_map_only [where k = user_id])
      show "distinct (map user_id ?us)" using assms(1) by (rule distinct_map_filter)
      show "u \<in> set ?us" using assms(3) True by simp
      show "\<forall>y \<in> set ?us. user_id y \<noteq> user_id u \<longrightarrow> ?f y = []"
        by (simp add: pair_calls_other_user)
    qed
    with tr have eq: "filter ?P (fst (sweep_cycle (connected s) b now)) =
        (case ban_chat_member b (chat_id g) (user_id u) of
           Inl e \<Rightarrow> [Ban (chat_id g) (user_id u)]
         | Inr ok \<Rightarrow> [Ban (chat_id g) (user_id u), Unban (chat_id g) (user_id u)])"
      by (simp only: pair_calls_groups [OF assms(2) assms(4)])
    show ?thesis by (subst if_not_P [OF True]) (rule eq)
  next
    case False
    have "\<forall>y \<in> set ?us. ?f y = []"
    proof
      fix y assume "y \<in> set ?us"
      then have "?old y" by simp
      with False have "user_id y \<noteq> user_id u" by metis
      then show "?f y = []" by (rule pair_calls_other_user)
    qed
    then have "concat (map ?f ?us) = []" by simp
    with tr have eq: "filter ?P (fst (sweep_cycle (connected s) b now)) = []" by simp
    from False have r: "\<exists>w \<in> set (warnings_col s). w_user_id w = user_id u \<and> now - 86400 \<le> timestamp w"
      by blast
    show ?thesis by (subst if_P [OF r]) (rule eq)
  qed
next
  assume recent: "\<exists>w \<in> set (warnings_col s). w_user_id w = user_id u \<and> now - 86400 \<le> timestamp w"
  show "\<forall>cid. Ban cid (user_id u) \<notin> set (fst (sweep_cycle (connected s) b now))
            \<and> Unban cid (user_id u) \<notin> set (fst (sweep_cycle (connected s) b now))"
  proof
    fix cid
    have "\<And>y. y \<in> set (users_col s) \<Longrightarrow>
        \<not> (\<exists>w \<in> set (warnings_col s). w_user_id w = user_id y \<and> now - 86400 \<le> timestamp w) \<Longrightarrow>
        Ban cid (user_id u) \<notin> set (remove_from_groups b (user_id y) (groups_col s))
        \<and> Unban cid (user_id u) \<notin> set (remove_from_groups b (user_id y) (groups_col s))"
    proof -
      fix y
      assume "\<not> (\<exists>w \<in> set (warnings_col s). w_user_id w = user_id y \<and> now - 86400 \<le> timestamp w)"
      with recent have "user_id y \<noteq> user_id u" by metis
      then show "Ban cid (user_id u) \<notin> set (remove_from_groups b (user_id y) (groups_col s))
        \<and> Unban cid (user_id u) \<notin> set (remove_from_groups b (user_id y) (groups_col s))"
        by (rule events_of_other_user)
    qed
    then show "Ban cid (user_id u) \<notin> set (fst (sweep_cycle (connected s) b now))
            \<and> Unban cid (user_id u) \<notin> set (fst (sweep_cycle (connected s) b now))"
      by (auto simp: sweep_cycle_connected)
  qed
qed

theorem sweep_removes_exactly_the_inactive_witness:
  "distinct (map user_id (users_col sweep_example))
   \<and> distinct (map chat_id (groups_col sweep_example))
   \<and> \<lparr>user_id = 1, username = None, first_name = Some ''U'', last_name = None\<rparr> \<in> set (users_col sweep_example)
   \<and> \<lparr>chat_id = 20, title = Some ''G2''\<rparr> \<in> set (groups_col sweep_example)
   \<and> filter (\<lambda>e. e = Ban 20 1 \<or> e = Unban 20 1)
        (fst (sweep_cycle (connected sweep_example) ban_fails_in_10 100000)) = [Ban 20 1, Unban 20 1]"
proof -
  have h1: "distinct (map user_id (users_col sweep_example))"
    by (simp add: sweep_example_def)
  have h2: "distinct (map chat_id (groups_col sweep_example))"
    by (simp add: sweep_example_def)
  have h3: "\<lparr>user_id = 1, username = None, first_name = Some ''U'', last_name = None\<rparr>
      \<in> set (users_col sweep_example)"
    by (simp add: sweep_example_def)
  have h4: "\<lparr>chat_id = 20, title = Some ''G2''\<rparr> \<in> set (groups_col sweep_example)"
    by (simp add: sweep_example_def)
  have w: "warnings_col sweep_example = []" by (simp add: sweep_example_def)
  have b: "ban_chat_member ban_fails_in_10 20 1 = Inr True" by (simp add: ban_fails_in_10_def)
  from sweep_removes_exactly_the_inactive [OF h1 h2 h3 h4, of ban_fails_in_10 100000]
  have "filter (\<lambda>e. e = Ban 20 1 \<or> e = Unban 20 1)
        (fst (sweep_cycle (connected sweep_example) ban_fails_in_10 100000)) = [Ban 20 1, Unban 20 1]"
    by (simp add: w b)
  with h1 h2 h3 h4 show ?thesis by simp
qed

text \<open>
  The specification's own wording, one ban followed by one unban exactly when there is no recent
  warning, fails when the ban call raises: the unban call sits in the same \<^verbatim>\<open>try\<close> and
  is skipped.
\<close>

theorem sweep_ban_failure_counterexample:
  "fst (sweep_cycle (connected sweep_example) ban_fails_in_10 100000) =
     [Ban 10 1, LogWarning 1 10 TelegramError, Ban 20 1, Unban 20 1, LogInfo 1 20]
   \<and> \<not> (filter (\<lambda>e. e = Ban 10 1 \<or> e = Unban 10 1)
          (fst (sweep_cycle (connected sweep_example) ban_fails_in_10 100000)) = [Ban 10 1, Unban 10 1]
       \<longleftrightarrow> \<not> (\<exists>w \<in> set (warnings_col sweep_example).
                 w_user_id w = 1 \<and> 100000 - 86400 \<le> timestamp w))"
  by (simp add: sweep_example_trace) (simp add: sweep_example_def)

text \<open>
  C2. Whatever the ban and unban calls do, the cycle over a store that answers ends
  without an exception, and the ban calls it issues are the same: one for every tracked
  user without a recent warning and every tracked group, in order. A call that raises is
  logged as a warning with its user, chat and error.
\<close>

theorem sweep_failures_do_not_stop_removals:
  "snd (sweep_cycle (connected s) b now) = None
   \<and> filter is_ban (fst (sweep_cycle (connected s) b now)) =
       concat (map (\<lambda>u. map (\<lambda>g. Ban (chat_id g) (user_id u)) (groups_col s))
         (filter (\<lambda>u. \<not> (\<exists>w \<in> set (warnings_col s).
                      w_user_id w = user_id u \<and> now - 86400 \<le> timestamp w)) (users_col s)))
   \<and> (\<forall>u \<in> set (users_col s). \<forall>g \<in> set (groups_col s).
         \<not> (\<exists>w \<in> set (warnings_col s). w_user_id w = user_id u \<and> now - 86400 \<le> timestamp w) \<longrightarrow>
           Ban (chat_id g) (user_id u) \<in> set (fst (sweep_cycle (connected s) b now))
         \<and> (\<forall>e. ban_chat_member b (chat_id g) (user_id u) = Inl e \<longrightarrow>
               LogWarning (user_id u) (chat_id g) e \<in> set (fst (sweep_cycle (connected s) b now)))
         \<and> (\<forall>ok e. ban_chat_member b (chat_id g) (user_id u) = Inr ok
                  \<and> unban_chat_member b (chat_id g) (user_id u) = Inl e \<longrightarrow>
               LogWarning (user_id u) (chat_id g) e \<in> set (fst (sweep_cycle (connected s) b now))))"
proof (intro conjI ballI impI)
  show "snd (sweep_cycle (connected s) b now) = None"
    by (simp add: sweep_cycle_connected)
  show "filter is_ban (fst (sweep_cycle (connected s) b now)) =
       concat (map (\<lambda>u. map (\<lambda>g. Ban (chat_id g) (user_id u)) (groups_col s))
         (filter (\<lambda>u. \<not> (\<exists>w \<in> set (warnings_col s).
                      w_user_id w = user_id u \<and> now - 86400 \<le> timestamp w)) (users_col s)))"
    by (simp add: sweep_cycle_connected filter_concat comp_def bans_of_remove_from_groups)
next
  fix u g
  assume u: "u \<in> set (users_col s)" and g: "g \<in> set (groups_col s)"
    and old: "\<not> (\<exists>w \<in> set (warnings_col s). w_user_id w = user_id u \<and> now - 86400 \<le> timestamp w)"
  have sub: "set (remove_from_group b (chat_id g) (user_id u))
      \<subseteq> set (fst (sweep_cycle (connected s) b now))"
  proof
    fix ev assume "ev \<in> set (remove_from_group b (chat_id g) (user_id u))"
    with g have "ev \<in> set (remove_from_groups b (user_id u) (groups_col s))"
      unfolding set_remove_from_groups by blast
    with u old show "ev \<in> set (fst (sweep_cycle (connected s) b now))"
      unfolding sweep_cycle_connected by auto
  qed
  show "Ban (chat_id g) (user_id u) \<in> set (fst (sweep_cycle (connected s) b now))"
    using sub set_remove_from_group by blast
  show "\<forall>e. ban_chat_member b (chat_id g) (user_id u) = Inl e \<longrightarrow>
          LogWarning (user_id u) (chat_id g) e \<in> set (fst (sweep_cycle (connected s) b now))"
    using sub set_remove_from_group by blast
  show "\<forall>ok e. ban_chat_member b (chat_id g) (user_id u) = Inr ok
             \<and> unban_chat_member b (chat_id g) (user_id u) = Inl e \<longrightarrow>
          LogWarning (user_id u) (chat_id g) e \<in> set (fst (sweep_cycle (connected s) b now))"
    using sub set_remove_from_group by blast
qed

theorem sweep_failures_do_not_stop_removals_witness:
  "\<lparr>user_id = 1, username = None, first_name = Some ''U'', last_name = None\<rparr> \<in> set (users_col sweep_example)
   \<and> \<lparr>chat_id = 10, title = Some ''G1''\<rparr> \<in> set (groups_col sweep_example)
   \<and> \<lparr>chat_id = 20, title = Some ''G2''\<rparr> \<in> set (groups_col sweep_example)
   \<and> ban_chat_member ban_fails_in_10 10 1 = Inl TelegramError
   \<and> Ban 20 1 \<in> set (fst (sweep_cycle (connected sweep_example) ban_fails_in_10 100000))
   \<and> LogWarning 1 10 TelegramError \<in> set (fst (sweep_cycle (connected sweep_example) ban_fails_in_10 100000))
   \<and> snd (sweep_cycle (connected sweep_example) ban_fails_in_10 100000) = None"
proof -
  have h3: "\<lparr>user_id = 1, username = None, first_name = Some ''U'', last_name = None\<rparr>
      \<in> set (users_col sweep_example)"
    by (simp add: sweep_example_def)
  have h10: "\<lparr>chat_id = 10, title = Some ''G1''\<rparr> \<in> set (groups_col sweep_example)"
    by (simp add: sweep_example_def)
  have h20: "\<lparr>chat_id = 20, title = Some ''G2''\<rparr> \<in> set (groups_col sweep_example)"
    by (simp add: sweep_example_def)
  have w: "warnings_col sweep_example = []" by (simp add: sweep_example_def)
  have b: "ban_chat_member ban_fails_in_10 10 1 = Inl TelegramError"
    by (simp add: ban_fails_in_10_def)
  note t = sweep_failures_do_not_stop_removals [of sweep_example ban_fails_in_10 100000]
  from t have n: "snd (sweep_cycle (connected sweep_example) ban_fails_in_10 100000) = None"
    by blast
  from t h3 h20 w
  have b20: "Ban 20 1 \<in> set (fst (sweep_cycle (connected sweep_example) ban_fails_in_10 100000))"
    by fastforce
  from t h3 h10 w b
  have l10: "LogWarning 1 10 TelegramError
      \<in> set (fst (sweep_cycle (connected sweep_example) ban_fails_in_10 100000))"
    by fastforce
  from h3 h10 h20 b b20 l10 n show ?thesis by blast
qed

subsection \<open>A query that raises\<close>
















section \<open>Properties of the command handlers\<close>

subsection \<open>Parsing the arguments of \<^verbatim>\<open>/punto\<close>\<close>

lemma dropWhile_none: "\<forall>x \<in> set xs. \<not> P x \<Longrightarrow> dropWhile P xs = xs"
  by (cases xs) auto

lemma py_strip_no_space: "\<forall>c \<in> set str. \<not> int_isspace c \<Longrightarrow> py_strip str = str"
  by (simp add: py_strip_def dropWhile_none)

lemma digit_not_space: "py_isdigit c \<Longrightarrow> \<not> int_isspace c"
  by (auto simp: py_isdigit_def py_isdecimal_def int_isspace_def Let_def)

lemma decimal_digit: "py_isdecimal c \<Longrightarrow> py_isdigit c"
  by (simp add: py_isdigit_def)

lemma digit_not_sign:
  "py_isdigit c \<Longrightarrow> c \<noteq> CHR ''-'' \<and> c \<noteq> CHR ''+'' \<and> c \<noteq> CHR ''_''"
  by (auto simp: py_isdigit_def py_isdecimal_def)

lemma int_digits_plain:
  "\<forall>c \<in> set str. c \<noteq> CHR ''_'' \<Longrightarrow>
     int_digits str = (if str \<noteq> [] \<and> list_all py_isdecimal str then Some str else None)"
  by (induction str rule: int_digits.induct) auto

lemma py_int_digits:
  assumes "isdigit str"
  shows "py_int str =
    (if list_all py_isdecimal str \<and> length str \<le> int_max_str_digits
     then Inr (decimal_value str) else Inl ValueError)"
proof -
  from assms obtain c r where str: "str = c # r" and all: "\<forall>x \<in> set str. py_isdigit x"
    by (cases str) (auto simp: isdigit_def list_all_iff)
  from all have strip: "py_strip str = str"
    by (intro py_strip_no_space) (auto dest: digit_not_space)
  from all have plain: "\<forall>x \<in> set str. x \<noteq> CHR ''_''"
    using digit_not_sign by blast
  from all str have sign: "c \<noteq> CHR ''-''" "c \<noteq> CHR ''+''"
    using digit_not_sign by auto
  have "int_digits (c # r) = (if list_all py_isdecimal (c # r) then Some (c # r) else None)"
    using int_digits_plain [OF plain] str by simp
  with strip sign str show ?thesis
    by (auto simp: py_int_def int_of_digits_def)
qed

lemma warn_args_spec:
  "(nat (max 1 (min (fst (warn_args args)) 100)), snd (warn_args args)) =
     (if args \<noteq> [] \<and> isdigit (hd args)
         \<and> (\<not> list_all py_isdecimal (hd args) \<or> int_max_str_digits < length (hd args))
      then (1, default_reason) else spec_punto_args args)"
proof (cases args)
  case Nil
  then show ?thesis by (simp add: warn_args_def spec_punto_args_def)
next
  case (Cons a rest)
  show ?thesis
  proof (cases "isdigit a")
    case True
    then have "a \<noteq> []" by (auto simp: isdigit_def)
    with True Cons show ?thesis
      by (cases rest) (simp_all add: warn_args_def spec_punto_args_def py_int_digits)
  next
    case False
    then have "\<not> (a \<noteq> [] \<and> list_all py_isdecimal a)"
      by (auto simp: isdigit_def list_all_iff dest: decimal_digit)
    with False Cons show ?thesis
      by (auto simp: warn_args_def spec_punto_args_def)
  qed
qed

subsection \<open>The effect of \<^verbatim>\<open>/punto\<close> on the store\<close>

lemma users_col_repeat_add_warning:
  "users_col (repeat_add_warning n uid cid rsn clock i s) = users_col s"
  by (induction n uid cid rsn clock i s rule: repeat_add_warning.induct)
     (simp_all add: add_warning_def)

lemma warnings_col_repeat_add_warning:
  "warnings_col (repeat_add_warning n uid cid rsn clock i s) =
     warnings_col s @
     map (\<lambda>j. \<lparr>w_user_id = uid, w_chat_id = cid, timestamp = clock j, reason = rsn\<rparr>) [i ..< i + n]"
proof (induction n uid cid rsn clock i s rule: repeat_add_warning.induct)
  case (1 uid cid rsn clock i s)
  then show ?case by simp
next
  case (2 n uid cid rsn clock i s)
  have "[i ..< i + Suc n] = i # [Suc i ..< Suc i + n]"
    by (simp add: upt_rec)
  with 2 show ?case
    by (simp add: add_warning_def insert_one_def)
qed

lemma warnings_col_add_user: "warnings_col (add_user user s) = warnings_col s"
  by (simp add: add_user_def)

lemma user_ids_add_user:
  "user_id ` set (users_col (add_user user s)) = insert (tg_id user) (user_id ` set (users_col s))"
proof -
  have "map user_id (users_col (add_user user s)) =
      (if tg_id user \<in> set (map user_id (users_col s)) then map user_id (users_col s)
       else map user_id (users_col s) @ [tg_id user])"
    by (simp add: add_user_def update_one_upsert_keys [where k = user_id and key = "tg_id user"])
  then have "set (map user_id (users_col (add_user user s))) =
      insert (tg_id user) (set (map user_id (users_col s)))"
    by (auto split: if_splits)
  then show ?thesis by simp
qed

lemma warn_admin_reply:
  assumes "is_admin api upd None" and "reply_to_message upd = Some target"
  shows "warn api upd args clock s =
    (repeat_add_warning (nat (max 1 (min (fst (warn_args args)) 100))) (tg_id target)
       (tg_chat_id (effective_chat upd)) (snd (warn_args args)) clock 0 (add_user target s),
     PointsTotal (get_user_mention target)
       (length (get_warnings (tg_id target)
          (repeat_add_warning (nat (max 1 (min (fst (warn_args args)) 100))) (tg_id target)
             (tg_chat_id (effective_chat upd)) (snd (warn_args args)) clock 0 (add_user target s)))))"
  using assms by (simp add: warn_def Let_def split: prod.splits)

lemma length_get_warnings_append:
  "warnings_col s' = warnings_col s @ new \<Longrightarrow> \<forall>w \<in> set new. w_user_id w = uid \<Longrightarrow>
     length (get_warnings uid s') = length (get_warnings uid s) + length new"
  by (simp add: get_warnings_def length_sort_desc)

lemma example_admin:
  "is_admin example_api (command_by 1) None"
  "reply_to_message (command_by i) = Some (person 2)"
  by (simp_all add: is_admin_def example_api_def command_by_def person_def)

text \<open>
  Away from one class of leading tokens, \<^verbatim>\<open>/punto\<close> issued by an admin as a reply follows
  the rule of the specification: the count and reason of \<open>spec_punto_args\<close>, that many
  warning documents inserted, each with that reason, the current chat and the target user,
  and a reply that reports the prior total plus that count. The class left out is a leading
  token that \<^verbatim>\<open>isdigit\<close> accepts and \<^verbatim>\<open>int\<close> refuses.
\<close>

lemma punto_follows_spec_rule:
  assumes "is_admin api upd None" and "reply_to_message upd = Some target"
    and "\<not> (args \<noteq> [] \<and> isdigit (hd args)
          \<and> (\<not> list_all py_isdecimal (hd args) \<or> int_max_str_digits < length (hd args)))"
    and "(k, rsn) = spec_punto_args args"
  shows "1 \<le> k \<and> k \<le> 100
    \<and> warnings_col (fst (warn api upd args clock s)) =
        warnings_col s @
        map (\<lambda>i. \<lparr>w_user_id = tg_id target, w_chat_id = tg_chat_id (effective_chat upd),
                   timestamp = clock i, reason = rsn\<rparr>) [0 ..< k]
    \<and> snd (warn api upd args clock s) =
        PointsTotal (get_user_mention target) (length (get_warnings (tg_id target) s) + k)"
proof -
  let ?new = "map (\<lambda>i. \<lparr>w_user_id = tg_id target, w_chat_id = tg_chat_id (effective_chat upd),
                   timestamp = clock i, reason = rsn\<rparr>) [0 ..< k]"
  let ?s' = "repeat_add_warning k (tg_id target) (tg_chat_id (effective_chat upd)) rsn clock 0
               (add_user target s)"
  have "(nat (max 1 (min (fst (warn_args args)) 100)), snd (warn_args args)) = (k, rsn)"
    by (simp only: warn_args_spec [of args] if_not_P [OF assms(3)] assms(4))
  then have k: "nat (max 1 (min (fst (warn_args args)) 100)) = k" and rsn: "snd (warn_args args) = rsn"
    by simp_all
  have range: "1 \<le> k \<and> k \<le> 100"
    using k by arith
  have w: "warn api upd args clock s =
      (?s', PointsTotal (get_user_mention target) (length (get_warnings (tg_id target) ?s')))"
    using warn_admin_reply [OF assms(1,2), of args clock s] by (simp only: k rsn)
  have col: "warnings_col ?s' = warnings_col s @ ?new"
    by (simp add: warnings_col_repeat_add_warning warnings_col_add_user)
  have "length (get_warnings (tg_id target) ?s') = length (get_warnings (tg_id target) s) + length ?new"
    by (rule length_get_warnings_append [OF col]) simp
  then have len: "length (get_warnings (tg_id target) ?s') = length (get_warnings (tg_id target) s) + k"
    by simp
  from range w col len show ?thesis by simp
qed

lemma punto_five_spam:
  "spec_punto_args [''5'', ''spam''] = (5, ''spam'')
   \<and> warnings_col (fst (warn example_api (command_by 1) [''5'', ''spam''] (\<lambda>i. 1000 + int i) warned_store)) =
       warnings_col warned_store @
       map (\<lambda>i. \<lparr>w_user_id = 2, w_chat_id = 10, timestamp = 1000 + int i, reason = ''spam''\<rparr>) [0 ..< 5]
   \<and> snd (warn example_api (command_by 1) [''5'', ''spam''] (\<lambda>i. 1000 + int i) warned_store) =
       PointsTotal (get_user_mention (person 2)) 7"
proof -
  have sp: "spec_punto_args [''5'', ''spam''] = (5, ''spam'')"
    by (simp add: spec_punto_args_def py_isdecimal_def decimal_value_def)
  have h3: "\<not> ([''5'', ''spam''] \<noteq> [] \<and> isdigit (hd [''5'', ''spam''])
      \<and> (\<not> list_all py_isdecimal (hd [''5'', ''spam''])
           \<or> int_max_str_digits < length (hd [''5'', ''spam''])))"
    by (simp add: py_isdecimal_def int_max_str_digits_def)
  have old: "length (get_warnings 2 warned_store) = 2"
    by (simp add: get_warnings_def length_sort_desc warned_store_def)
  have ids: "tg_id (person 2) = 2" "tg_chat_id (effective_chat (command_by 1)) = 10"
    by (simp_all add: person_def command_by_def)
  from punto_follows_spec_rule [OF example_admin(1) example_admin(2) h3 sp [symmetric],
      of "\<lambda>i. 1000 + int i" warned_store]
  have "warnings_col (fst (warn example_api (command_by 1) [''5'', ''spam''] (\<lambda>i. 1000 + int i) warned_store)) =
       warnings_col warned_store @
       map (\<lambda>i. \<lparr>w_user_id = 2, w_chat_id = 10, timestamp = 1000 + int i, reason = ''spam''\<rparr>) [0 ..< 5]
   \<and> snd (warn example_api (command_by 1) [''5'', ''spam''] (\<lambda>i. 1000 + int i) warned_store) =
       PointsTotal (get_user_mention (person 2)) 7"
    by (simp only: ids old) simp
  with sp show ?thesis by blast
qed

text \<open>
  A first token that is no number and that \<^verbatim>\<open>isdigit\<close> refuses goes through the
  \<^verbatim>\<open>else\<close> branch, which keeps every token in the reason.
\<close>

lemma punto_non_number_keeps_tokens:
  "warn_args [''-5'', ''spam''] = (1, ''-5 spam'')
   \<and> warn_args [''1_0'', ''z''] = (1, ''1_0 z'')"
  by (simp add: warn_args_def isdigit_def py_isdigit_def py_isdecimal_def)

text \<open>
  C4. For \<^verbatim>\<open>/punto\<close> issued by an admin as a reply, the leading numeric argument is the
  repeat count and the remaining tokens form the reason. The code departs from this at
  \<^verbatim>\<open>/punto\<close> followed by SUPERSCRIPT TWO and \<^verbatim>\<open>spam\<close>: \<^verbatim>\<open>isdigit\<close> holds of the first
  token, \<^verbatim>\<open>int\<close> raises, \<^verbatim>\<open>except Exception: pass\<close> swallows the exception before the
  reason is assigned, and the one document inserted carries the default reason. The
  \<^verbatim>\<open>else\<close> branch beside it keeps the tokens of every other first token that is no
  number.
\<close>

theorem punto_superscript_divergence:
  "spec_punto_args [[CHR 0xB2], ''spam''] = (1, [CHR 0xB2] @ '' spam'')
   \<and> map reason (warnings_col (fst (warn example_api (command_by 1) [[CHR 0xB2], ''spam'']
        (\<lambda>i. 1000 + int i) warned_store))) = [''x'', ''y'', ''Nessun motivo fornito.'']
   \<and> \<not> (warnings_col (fst (warn example_api (command_by 1) [[CHR 0xB2], ''spam'']
            (\<lambda>i. 1000 + int i) warned_store)) =
          warnings_col warned_store @
          map (\<lambda>i. \<lparr>w_user_id = 2, w_chat_id = 10, timestamp = 1000 + int i,
                     reason = snd (spec_punto_args [[CHR 0xB2], ''spam''])\<rparr>)
            [0 ..< fst (spec_punto_args [[CHR 0xB2], ''spam''])])"
proof -
  have sp: "spec_punto_args [[CHR 0xB2], ''spam''] = (1, [CHR 0xB2] @ '' spam'')"
    by (simp add: spec_punto_args_def py_isdecimal_def)
  have wa: "warn_args [[CHR 0xB2], ''spam''] = (1, default_reason)"
    by (simp add: warn_args_def isdigit_def py_isdigit_def py_isdecimal_def py_int_def py_strip_def
        int_isspace_def int_of_digits_def)
  have w0: "fst (warn example_api (command_by 1) [[CHR 0xB2], ''spam'']
        (\<lambda>i. 1000 + int i) warned_store) =
      repeat_add_warning (nat (max 1 (min 1 100))) (tg_id (person 2))
        (tg_chat_id (effective_chat (command_by 1))) default_reason (\<lambda>i. 1000 + int i) 0
        (add_user (person 2) warned_store)"
    using warn_admin_reply [OF example_admin(1) example_admin(2),
        of "[[CHR 0xB2], ''spam'']" "\<lambda>i. 1000 + int i" warned_store]
    by (simp only: wa fst_conv snd_conv)
  have w: "warnings_col (fst (warn example_api (command_by 1) [[CHR 0xB2], ''spam'']
        (\<lambda>i. 1000 + int i) warned_store)) =
      warnings_col warned_store @
      [\<lparr>w_user_id = 2, w_chat_id = 10, timestamp = 1000, reason = default_reason\<rparr>]"
    by (simp only: w0)
       (simp add: warnings_col_repeat_add_warning warnings_col_add_user person_def command_by_def
          add_warning_def insert_one_def)
  show ?thesis
    by (simp add: w sp) (simp add: warned_store_def default_reason_def)
qed

text \<open>
  C5. \<^verbatim>\<open>is_admin\<close> holds exactly when the role lookup returns \<^verbatim>\<open>administrator\<close> or
  \<^verbatim>\<open>creator\<close>, and is false whenever the lookup raises. For a caller it rejects,
  \<^verbatim>\<open>/punto\<close>, \<^verbatim>\<open>/warnings\<close> and \<^verbatim>\<open>/clearwarnings\<close> reply with the fixed message and
  leave the store as it was.
\<close>

theorem admin_check_fails_closed:
  "is_admin api upd None =
     (\<exists>status. get_member api (tg_chat_id (effective_chat upd)) (tg_id (effective_user upd)) = Inr status
        \<and> (status = ''administrator'' \<or> status = ''creator''))
   \<and> (\<forall>e. get_member api (tg_chat_id (effective_chat upd)) (tg_id (effective_user upd)) = Inl e \<longrightarrow>
         \<not> is_admin api upd None)
   \<and> (\<not> is_admin api upd None \<longrightarrow>
         warn api upd args clock s = (s, OnlyAdmins)
       \<and> warnings_command api upd args s = (s, OnlyAdmins)
       \<and> clear_warnings_command api upd s = (s, OnlyAdmins))"
proof (intro conjI allI impI)
  show "is_admin api upd None =
     (\<exists>status. get_member api (tg_chat_id (effective_chat upd)) (tg_id (effective_user upd)) = Inr status
        \<and> (status = ''administrator'' \<or> status = ''creator''))"
    by (cases "get_member api (tg_chat_id (effective_chat upd)) (tg_id (effective_user upd))")
       (auto simp: is_admin_def)
next
  fix e
  assume "get_member api (tg_chat_id (effective_chat upd)) (tg_id (effective_user upd)) = Inl e"
  then show "\<not> is_admin api upd None" by (simp add: is_admin_def)
next
  assume "\<not> is_admin api upd None"
  then show "warn api upd args clock s = (s, OnlyAdmins)" by (simp add: warn_def)
next
  assume "\<not> is_admin api upd None"
  then show "warnings_command api upd args s = (s, OnlyAdmins)" by (simp add: warnings_command_def)
next
  assume "\<not> is_admin api upd None"
  then show "clear_warnings_command api upd s = (s, OnlyAdmins)"
    by (simp add: clear_warnings_command_def)
qed

theorem admin_check_fails_closed_witness:
  "get_member example_api (tg_chat_id (effective_chat (command_by 3))) (tg_id (effective_user (command_by 3)))
     = Inl TelegramError
   \<and> \<not> is_admin example_api (command_by 3) None
   \<and> warn example_api (command_by 3) [''5'', ''spam''] (\<lambda>i. 1000 + int i) warned_store
       = (warned_store, OnlyAdmins)
   \<and> warnings_command example_api (command_by 3) [''5'', ''spam''] warned_store
       = (warned_store, OnlyAdmins)
   \<and> clear_warnings_command example_api (command_by 3) warned_store = (warned_store, OnlyAdmins)"
proof -
  have h: "get_member example_api (tg_chat_id (effective_chat (command_by 3)))
      (tg_id (effective_user (command_by 3))) = Inl TelegramError"
    by (simp add: example_api_def command_by_def person_def)
  from admin_check_fails_closed [of example_api "command_by 3" "[''5'', ''spam'']"
      "\<lambda>i. 1000 + int i" warned_store] h
  show ?thesis by blast
qed

text \<open>
  C10. A \<^verbatim>\<open>/punto\<close> by an admin in reply to a user first upserts that user, with no
  warning inserted yet, and then inserts the warnings into that store. Afterwards the user
  is tracked, so the sweep's query of the users returns them; every warning inserted
  belongs to that user; and if every warning's user was tracked before, that still holds.
\<close>

theorem punto_tracks_warned_user:
  assumes "is_admin api upd None" and "reply_to_message upd = Some target"
  shows "tg_id target \<in> user_id ` set (users_col (add_user target s))
    \<and> warnings_col (add_user target s) = warnings_col s
    \<and> (\<exists>k rsn. fst (warn api upd args clock s) =
          repeat_add_warning k (tg_id target) (tg_chat_id (effective_chat upd)) rsn clock 0
            (add_user target s))
    \<and> tg_id target \<in> user_id ` set (users_col (fst (warn api upd args clock s)))
    \<and> users_find (connected (fst (warn api upd args clock s))) =
        Inr (users_col (fst (warn api upd args clock s)))
    \<and> (\<exists>new. warnings_col (fst (warn api upd args clock s)) = warnings_col s @ new
          \<and> new \<noteq> []
          \<and> (\<forall>w \<in> set new. w_user_id w = tg_id target
                \<and> w_user_id w \<in> user_id ` set (users_col (fst (warn api upd args clock s)))))
    \<and> ((\<forall>w \<in> set (warnings_col s). w_user_id w \<in> user_id ` set (users_col s)) \<longrightarrow>
        (\<forall>w \<in> set (warnings_col (fst (warn api upd args clock s))).
           w_user_id w \<in> user_id ` set (users_col (fst (warn api upd args clock s)))))"
proof -
  define k where "k = nat (max 1 (min (fst (warn_args args)) 100))"
  define rsn where "rsn = snd (warn_args args)"
  let ?s' = "fst (warn api upd args clock s)"
  let ?new = "map (\<lambda>i. \<lparr>w_user_id = tg_id target, w_chat_id = tg_chat_id (effective_chat upd),
                   timestamp = clock i, reason = rsn\<rparr>) [0 ..< k]"
  have kpos: "0 < k" by (simp add: k_def)
  have s': "?s' = repeat_add_warning k (tg_id target) (tg_chat_id (effective_chat upd)) rsn clock 0
               (add_user target s)"
    using warn_admin_reply [OF assms, of args clock s] by (simp add: k_def rsn_def)
  have ids: "user_id ` set (users_col ?s') = insert (tg_id target) (user_id ` set (users_col s))"
    by (simp only: s' users_col_repeat_add_warning user_ids_add_user)
  have col: "warnings_col ?s' = warnings_col s @ ?new"
    by (simp only: s' warnings_col_repeat_add_warning warnings_col_add_user) simp
  have c1: "tg_id target \<in> user_id ` set (users_col (add_user target s))"
    by (simp only: user_ids_add_user) simp
  have c2: "warnings_col (add_user target s) = warnings_col s"
    by (rule warnings_col_add_user)
  have c3: "\<exists>k rsn. ?s' = repeat_add_warning k (tg_id target) (tg_chat_id (effective_chat upd))
      rsn clock 0 (add_user target s)"
    using s' by blast
  have c4: "tg_id target \<in> user_id ` set (users_col ?s')"
    by (simp only: ids) simp
  have c5: "users_find (connected ?s') = Inr (users_col ?s')"
    by (simp add: connected_def)
  have "?new \<noteq> []" using kpos by simp
  moreover have "\<forall>w \<in> set ?new. w_user_id w = tg_id target
      \<and> w_user_id w \<in> user_id ` set (users_col ?s')"
    using c4 by auto
  ultimately have c6: "\<exists>new. warnings_col ?s' = warnings_col s @ new \<and> new \<noteq> []
      \<and> (\<forall>w \<in> set new. w_user_id w = tg_id target
            \<and> w_user_id w \<in> user_id ` set (users_col ?s'))"
    using col by blast
  have c7: "(\<forall>w \<in> set (warnings_col s). w_user_id w \<in> user_id ` set (users_col s)) \<longrightarrow>
        (\<forall>w \<in> set (warnings_col ?s'). w_user_id w \<in> user_id ` set (users_col ?s'))"
  proof (intro impI ballI)
    fix w
    assume inv: "\<forall>w \<in> set (warnings_col s). w_user_id w \<in> user_id ` set (users_col s)"
      and "w \<in> set (warnings_col ?s')"
    then have "w \<in> set (warnings_col s) \<or> w \<in> set ?new" by (simp only: col set_append Un_iff)
    then show "w_user_id w \<in> user_id ` set (users_col ?s')"
    proof
      assume "w \<in> set (warnings_col s)"
      with inv have "w_user_id w \<in> user_id ` set (users_col s)" by blast
      then show ?thesis by (simp only: ids) simp
    next
      assume "w \<in> set ?new"
      then have "w_user_id w = tg_id target" by auto
      then show ?thesis by (simp only: ids) simp
    qed
  qed
  from c1 c2 c3 c4 c5 c6 c7 show ?thesis by blast
qed

theorem punto_tracks_warned_user_witness:
  "is_admin example_api (command_by 1) None
   \<and> reply_to_message (command_by 1) = Some (person 2)
   \<and> users_col warned_store = []
   \<and> tg_id (person 2) \<in> user_id ` set (users_col
        (fst (warn example_api (command_by 1) [] (\<lambda>i. 1000 + int i) warned_store)))"
proof -
  have e: "users_col warned_store = []" by (simp add: warned_store_def)
  from punto_tracks_warned_user [OF example_admin(1) example_admin(2),
      where args = "[]" and clock = "\<lambda>i. 1000 + int i" and s = warned_store]
  have "tg_id (person 2) \<in> user_id ` set (users_col
        (fst (warn example_api (command_by 1) [] (\<lambda>i. 1000 + int i) warned_store)))"
    by blast
  with example_admin(1) example_admin(2) [of 1] e show ?thesis by blast
qed

end
